theory Spec2Isabelle
  imports Main "HOL-Library.Word"
begin

unbundle bit_operations_syntax

section \<open>Bytes, words and the address space\<close>

text \<open>
  The bootloader runs on a 32-bit little-endian microcontroller. Memory is one flat,
  byte-addressed space of 32-bit addresses holding flash (from \<open>FLASH_START\<close>) and RAM
  (the boot area at \<open>0x20004000\<close>). Address arithmetic is \<open>uint32_t\<close> arithmetic and
  wraps around. Local arrays and \<open>static\<close> scratch buffers of the C functions are values
  of the model, not cells of \<open>memory\<close>.
\<close>

type_synonym u8 = "8 word"
type_synonym u32 = "32 word"
type_synonym memory = "u32 \<Rightarrow> u8"

text \<open>Reading \<open>n\<close> consecutive bytes from address \<open>a\<close> on.\<close>

definition read_bytes :: "memory \<Rightarrow> u32 \<Rightarrow> nat \<Rightarrow> u8 list" where
  "read_bytes m a n = map (\<lambda>i. m (a + of_nat i)) [0..<n]"

text \<open>Storing a byte sequence at consecutive addresses, first byte first.\<close>

primrec write_bytes :: "u32 \<Rightarrow> u8 list \<Rightarrow> memory \<Rightarrow> memory" where
  "write_bytes a [] m = m"
| "write_bytes a (b # bs) m = write_bytes (a + 1) bs (m(a := b))"

text \<open>A 32-bit word in memory, least significant byte at the lowest address.\<close>

definition store32 :: "u32 \<Rightarrow> u8 list" where
  "store32 v = [ucast v, ucast (drop_bit 8 v), ucast (drop_bit 16 v), ucast (drop_bit 24 v)]"

definition load32 :: "memory \<Rightarrow> u32 \<Rightarrow> u32" where
  "load32 m a = ucast (m a) OR push_bit 8 (ucast (m (a + 1)))
                OR push_bit 16 (ucast (m (a + 2))) OR push_bit 24 (ucast (m (a + 3)))"

section \<open>Storage layout (bootloader.c, lines 32-59)\<close>

text \<open>
  Modelled from the spec: \<open>flash.h\<close>, which defines \<open>FLASH_START\<close> and \<open>FLASH_PAGE_SIZE\<close>,
  is not part of the sources. The spec fixes the layout only as "fixed absolute offsets,
  all page-aligned"; the two values below are the ones that make the macros of
  bootloader.c produce the addresses listed in its own layout comment (size at
  \<open>0x0002B400\<close>, firmware at \<open>0x0002BC00\<close>, configuration at \<open>0x00030000\<close>).
\<close>

definition FLASH_START :: u32 where
  "FLASH_START = 0"

definition FLASH_PAGE_SIZE :: u32 where
  "FLASH_PAGE_SIZE = 1024"

definition FIRMWARE_HASH_PTR :: u32 where
  "FIRMWARE_HASH_PTR = FLASH_START + 0x0002B3B0"

definition FIRMWARE_METADATA_PTR :: u32 where
  "FIRMWARE_METADATA_PTR = FLASH_START + 0x0002B400"

definition FIRMWARE_SIZE_PTR :: u32 where
  "FIRMWARE_SIZE_PTR = FIRMWARE_METADATA_PTR + 0"

definition FIRMWARE_VERSION_PTR :: u32 where
  "FIRMWARE_VERSION_PTR = FIRMWARE_METADATA_PTR + 4"

definition FIRMWARE_RELEASE_MSG_PTR :: u32 where
  "FIRMWARE_RELEASE_MSG_PTR = FIRMWARE_METADATA_PTR + 8"

definition FIRMWARE_RELEASE_MSG_PTR2 :: u32 where
  "FIRMWARE_RELEASE_MSG_PTR2 = FIRMWARE_METADATA_PTR + FLASH_PAGE_SIZE"

text \<open>
  The macro casts the address to \<open>unsigned char\<close>, not to a pointer: only the low eight
  bits of the address survive, and that small integer is what the callee receives as its
  \<open>char *\<close> argument.
\<close>

definition FIRMWARE_DATA_PTR :: u32 where
  "FIRMWARE_DATA_PTR = ucast (ucast (FIRMWARE_METADATA_PTR + FLASH_PAGE_SIZE * 2) :: u8)"

definition FIRMWARE_STORAGE_PTR :: u32 where
  "FIRMWARE_STORAGE_PTR = FIRMWARE_METADATA_PTR + FLASH_PAGE_SIZE * 2"

definition FIRMWARE_BOOT_PTR :: u32 where
  "FIRMWARE_BOOT_PTR = 0x20004000"

definition CONFIGURATION_METADATA_PTR :: u32 where
  "CONFIGURATION_METADATA_PTR = FIRMWARE_STORAGE_PTR + FLASH_PAGE_SIZE * 16"

definition CONFIGURATION_SIZE_PTR :: u32 where
  "CONFIGURATION_SIZE_PTR = CONFIGURATION_METADATA_PTR + 0"

definition CONFIGURATION_STORAGE_PTR :: u32 where
  "CONFIGURATION_STORAGE_PTR = CONFIGURATION_METADATA_PTR + FLASH_PAGE_SIZE"

definition FRAME_OK :: u8 where
  "FRAME_OK = 0x00"

definition FRAME_BAD :: u8 where
  "FRAME_BAD = 0x01"

definition aes_key :: "u8 list" where
  "aes_key = [0x1a, 0x2a, 0x3a, 0x4a, 0x5a, 0x6a, 0x7a, 0x8a,
              0x1a, 0x2a, 0x3a, 0x4a, 0x5a, 0x6a, 0x7a, 0x8a]"

section \<open>Device state and the driver interfaces\<close>

text \<open>
  A blocking read on a host that has stopped sending never returns (\<open>Stalled\<close>); a line
  longer than the array it is read into runs over the end of that array (\<open>Overflow\<close>).
\<close>

datatype error = Stalled | Overflow

datatype flash_op = Erase u32 | Program u32 u32

text \<open>
  \<open>uart_in\<close> holds the bytes the host will send, \<open>uart_out\<close> the bytes the device has
  sent, \<open>flash_ops\<close> the calls made to the flash driver so far, in order
  (\<open>Program a n\<close>: \<open>n\<close> words programmed from address \<open>a\<close> on).
\<close>

record state =
  mem :: memory
  uart_in :: "u8 list"
  uart_out :: "u8 list"
  flash_ops :: "flash_op list"

text \<open>
  Modelled from the spec: the UART driver (\<open>uart.h\<close>: \<open>uart_readb\<close>, \<open>uart_read\<close>,
  \<open>uart_readline\<close>, \<open>uart_writeb\<close>, \<open>uart_write\<close>) is not part of the sources. The spec
  gives byte-level blocking \<open>read(n)\<close> and \<open>write(bytes)\<close> that never partially fail and
  have no timeout, and a "delimiter-terminated read" for lines; the delimiter is taken to
  be the line feed. \<open>uart_readline\<close> returns the bytes before the delimiter; the caller's
  array of \<open>cap\<close> bytes must also hold the terminating NUL.
\<close>

definition uart_readb :: "state \<Rightarrow> error + (u8 \<times> state)" where
  "uart_readb s = (case uart_in s of
      [] \<Rightarrow> Inl Stalled
    | b # bs \<Rightarrow> Inr (b, s\<lparr>uart_in := bs\<rparr>))"

definition uart_read :: "nat \<Rightarrow> state \<Rightarrow> error + (u8 list \<times> state)" where
  "uart_read n s = (if length (uart_in s) < n then Inl Stalled
     else Inr (take n (uart_in s), s\<lparr>uart_in := drop n (uart_in s)\<rparr>))"

definition uart_writeb :: "u8 \<Rightarrow> state \<Rightarrow> state" where
  "uart_writeb b s = s\<lparr>uart_out := uart_out s @ [b]\<rparr>"

definition uart_write :: "u8 list \<Rightarrow> state \<Rightarrow> state" where
  "uart_write bs s = s\<lparr>uart_out := uart_out s @ bs\<rparr>"

fun readline_loop :: "nat \<Rightarrow> u8 list \<Rightarrow> u8 list \<Rightarrow> error + (u8 list \<times> u8 list)" where
  "readline_loop cap acc [] = Inl Stalled"
| "readline_loop cap acc (c # cs) =
     (if length acc < cap then
        (if c = 0x0A then Inr (acc, cs) else readline_loop cap (acc @ [c]) cs)
      else Inl Overflow)"

definition uart_readline :: "nat \<Rightarrow> state \<Rightarrow> error + (u8 list \<times> state)" where
  "uart_readline cap s = (case readline_loop cap [] (uart_in s) of
      Inl e \<Rightarrow> Inl e
    | Inr (line, rest) \<Rightarrow> Inr (line, s\<lparr>uart_in := rest\<rparr>))"

text \<open>
  Modelled from the spec: the flash driver (\<open>flash.h\<close>: \<open>flash_erase_page\<close>,
  \<open>flash_write\<close>, \<open>flash_write_word\<close>) is not part of the sources. The spec gives
  \<open>erase_page(address)\<close> and \<open>write_page(data, address, word_count)\<close>, both infallible;
  a page is the erase granularity and erasing sets every byte of the page to \<open>0xFF\<close>.
  The page erased is the one that contains the address.
\<close>

definition flash_erase_page :: "u32 \<Rightarrow> state \<Rightarrow> state" where
  "flash_erase_page a s =
     s\<lparr>mem := (\<lambda>x. if x div FLASH_PAGE_SIZE = a div FLASH_PAGE_SIZE then 0xFF else mem s x),
       flash_ops := flash_ops s @ [Erase a]\<rparr>"

definition flash_write :: "u8 list \<Rightarrow> u32 \<Rightarrow> u32 \<Rightarrow> state \<Rightarrow> state" where
  "flash_write data a count s =
     s\<lparr>mem := write_bytes a (take (4 * unat count) data) (mem s),
       flash_ops := flash_ops s @ [Program a count]\<rparr>"

definition flash_write_word :: "u32 \<Rightarrow> u32 \<Rightarrow> state \<Rightarrow> state" where
  "flash_write_word v a s =
     s\<lparr>mem := write_bytes a (store32 v) (mem s),
       flash_ops := flash_ops s @ [Program a 1]\<rparr>"

text \<open>
  Modelled from the spec: BearSSL (\<open>bearssl_hash.h\<close>, \<open>bearssl_block.h\<close>) is not part of
  the sources. The spec gives a fixed-output 256-bit digest and a block cipher in CBC mode
  that reports its block size. \<open>br_sha256 E d i\<close> is byte \<open>i\<close> of the digest of \<open>d\<close>; a
  cipher class carries the \<open>block_size\<close> and \<open>log_block_size\<close> fields the code inspects
  and, for decryption, \<open>init\<close> followed by \<open>run\<close> as one function of key, initialisation
  vector and data. \<open>OLDEST_VERSION\<close> is a build-time constant.
\<close>

record cbcenc_class =
  enc_block_size :: nat
  enc_log_block_size :: nat

record cbcdec_class =
  dec_block_size :: nat
  dec_log_block_size :: nat
  dec_run :: "u8 list \<Rightarrow> u8 list \<Rightarrow> u8 list \<Rightarrow> u8 list"

record env =
  OLDEST_VERSION :: u32
  br_sha256 :: "u8 list \<Rightarrow> nat \<Rightarrow> u8"
  br_aes_big_cbcenc_vtable :: cbcenc_class
  br_aes_big_cbcdec_vtable :: cbcdec_class

section \<open>handle_readback (lines 113-147)\<close>

text \<open>A big-endian 32-bit size, assembled from four received bytes as the handlers do.\<close>

definition be32 :: "u8 \<Rightarrow> u8 \<Rightarrow> u8 \<Rightarrow> u8 \<Rightarrow> u32" where
  "be32 b3 b2 b1 b0 =
     push_bit 24 (ucast b3) OR push_bit 16 (ucast b2) OR push_bit 8 (ucast b1) OR ucast b0"

definition recv_size :: "state \<Rightarrow> error + (u32 \<times> state)" where
  "recv_size s =
    (case uart_readb s of Inl e \<Rightarrow> Inl e | Inr (b3, s1) \<Rightarrow>
    (case uart_readb s1 of Inl e \<Rightarrow> Inl e | Inr (b2, s2) \<Rightarrow>
    (case uart_readb s2 of Inl e \<Rightarrow> Inl e | Inr (b1, s3) \<Rightarrow>
    (case uart_readb s3 of Inl e \<Rightarrow> Inl e | Inr (b0, s4) \<Rightarrow>
       Inr (be32 b3 b2 b1 b0, s4)))))"

definition handle_readback :: "state \<Rightarrow> error + state" where
  "handle_readback s =
    (let s0 = uart_writeb 0x52 s in
     case uart_readb s0 of Inl e \<Rightarrow> Inl e | Inr (region, s1) \<Rightarrow>
       if region = 0x46 then
         (let s2 = uart_writeb 0x46 s1 in
          (case recv_size s2 of Inl e \<Rightarrow> Inl e | Inr (sz, s3) \<Rightarrow>
            Inr (uart_write (read_bytes (mem s3) FIRMWARE_STORAGE_PTR (unat sz)) s3)))
       else if region = 0x43 then
         (let s2 = uart_writeb 0x43 s1 in
          (case recv_size s2 of Inl e \<Rightarrow> Inl e | Inr (sz, s3) \<Rightarrow>
            Inr (uart_write (read_bytes (mem s3) CONFIGURATION_STORAGE_PTR (unat sz)) s3)))
       else Inr s1)"

section \<open>load_data (lines 157-182)\<close>

text \<open>
  One pass of the loop body per recursive call. The page buffer is the frame read from
  the host followed by \<open>0xFF\<close> up to the page size. The \<open>interface\<close> parameter of the C
  function is never used (the body reads \<open>HOST_UART\<close>) and is left out.
\<close>

function load_data :: "u32 \<Rightarrow> u32 \<Rightarrow> state \<Rightarrow> error + state" where
  "load_data dst sz s =
    (if sz > 0 then
       (let frame_size = (if sz > FLASH_PAGE_SIZE then FLASH_PAGE_SIZE else sz) in
        case uart_read (unat frame_size) s of Inl e \<Rightarrow> Inl e | Inr (frame, s1) \<Rightarrow>
          (let page_buffer = frame @ replicate (unat FLASH_PAGE_SIZE - unat frame_size) 0xFF;
               s2 = flash_erase_page dst s1;
               s3 = flash_write page_buffer dst (drop_bit 2 FLASH_PAGE_SIZE) s2;
               s4 = uart_writeb FRAME_OK s3
           in load_data (dst + FLASH_PAGE_SIZE) (sz - frame_size) s4))
     else Inr s)"
  by pat_completeness auto
termination
proof (relation "measure (\<lambda>(dst, sz, s). unat sz)", goal_cases)
  case 1
  show ?case by simp
next
  case (2 dst sz s frame_size x2 frame s1 page_buffer s2 s3 s4)
  have "0 < sz" using 2 by simp
  moreover have "frame_size \<le> sz" "0 < frame_size"
    using 2 by (auto simp: FLASH_PAGE_SIZE_def)
  ultimately have "unat (sz - frame_size) < unat sz"
    by (simp add: unat_sub word_less_nat_alt word_le_nat_alt)
  then show ?case by simp
qed

section \<open>The integrity pipeline (lines 184-274)\<close>

definition compute_sha256 :: "env \<Rightarrow> memory \<Rightarrow> u32 \<Rightarrow> u32 \<Rightarrow> nat \<Rightarrow> u8" where
  "compute_sha256 E m data len = br_sha256 E (read_bytes m data (unat len))"

text \<open>
  \<open>do_AES_decrypt\<close> returns \<open>void\<close>: its only effect is on the \<open>len\<close> bytes at \<open>enc_data\<close>,
  which \<open>run\<close> replaces in place. The IV is sixteen zero bytes and the key the first
  \<open>sizeof(aes_key)\<close> bytes of the key buffer.
\<close>

definition do_AES_decrypt ::
  "u32 \<Rightarrow> u32 \<Rightarrow> cbcenc_class \<Rightarrow> cbcdec_class \<Rightarrow> memory \<Rightarrow> memory" where
  "do_AES_decrypt enc_data len ve vd m =
    (if enc_block_size ve \<noteq> 16 \<or> dec_block_size vd \<noteq> 16
        \<or> enc_log_block_size ve \<noteq> 4 \<or> dec_log_block_size vd \<noteq> 4
     then m
     else write_bytes enc_data
            (take (unat len) (dec_run vd aes_key (replicate 16 0)
                                (read_bytes m enc_data (unat len)))) m)"

text \<open>
  The comparison loop of \<open>decrypt_firmware\<close>, from index \<open>i\<close> on: the value returned and
  the index at which the loop was left.
\<close>

function hash_check :: "nat \<Rightarrow> (nat \<Rightarrow> u8) \<Rightarrow> (nat \<Rightarrow> u8) \<Rightarrow> int \<times> nat" where
  "hash_check i hash stored =
    (if i < 32 then
       (if hash i \<noteq> stored i then (-1, i) else hash_check (i + 1) hash stored)
     else (0, i))"
  by pat_completeness auto
termination
  by (relation "measure (\<lambda>(i, hash, stored). 32 - i)") auto

definition decrypt_firmware :: "env \<Rightarrow> u32 \<Rightarrow> u32 \<Rightarrow> memory \<Rightarrow> int \<times> memory" where
  "decrypt_firmware E img totalsize m =
    (if img = 0 then (-1, m)
     else
       (let image_size = load32 m (img + FIRMWARE_SIZE_PTR);
            m1 = do_AES_decrypt FIRMWARE_DATA_PTR image_size
                   (br_aes_big_cbcenc_vtable E) (br_aes_big_cbcdec_vtable E) m;
            hash = compute_sha256 E m1 FIRMWARE_DATA_PTR image_size
        in (fst (hash_check 0 hash (\<lambda>i. m1 (FIRMWARE_HASH_PTR + of_nat i))), m1)))"

section \<open>handle_update (lines 279-366)\<close>

definition recv_version :: "state \<Rightarrow> error + (u32 \<times> state)" where
  "recv_version s =
    (case uart_readb s of Inl e \<Rightarrow> Inl e | Inr (b1, s1) \<Rightarrow>
    (case uart_readb s1 of Inl e \<Rightarrow> Inl e | Inr (b0, s2) \<Rightarrow>
       Inr (push_bit 8 (ucast b1) OR ucast b0, s2)))"

text \<open>
  The array \<open>rel_msg\<close> after \<open>uart_readline\<close>: the line, the terminator, and beyond it
  whatever the stack held before the call (\<open>stack\<close>, indexed from the start of the
  array). \<open>flash_write\<close> is handed a pointer into the array and reads whole words, so
  it can read bytes past the terminator.
\<close>

definition line_buffer :: "(nat \<Rightarrow> u8) \<Rightarrow> u8 list \<Rightarrow> nat \<Rightarrow> u8" where
  "line_buffer stack line i =
     (if i < length line then line ! i else if i = length line then 0 else stack i)"

definition words_at :: "(nat \<Rightarrow> u8) \<Rightarrow> nat \<Rightarrow> u32 \<Rightarrow> u8 list" where
  "words_at buf off count = map buf [off..<off + 4 * unat count]"

text \<open>Lines 336-357: the release message goes to one or two pages.\<close>

definition write_release_msg :: "(nat \<Rightarrow> u8) \<Rightarrow> u32 \<Rightarrow> state \<Rightarrow> state" where
  "write_release_msg rel_msg rel_msg_size s =
    (let (rem_bytes, rel_msg_read_ptr, rel_msg_write_ptr, s2) =
           (if rel_msg_size > FLASH_PAGE_SIZE - 8 then
              (let s1 = flash_write (words_at rel_msg 0 (drop_bit 2 (FLASH_PAGE_SIZE - 8)))
                          FIRMWARE_RELEASE_MSG_PTR (drop_bit 2 (FLASH_PAGE_SIZE - 8)) s
               in (rel_msg_size - (FLASH_PAGE_SIZE - 8), unat (FLASH_PAGE_SIZE - 8),
                   FIRMWARE_RELEASE_MSG_PTR2, flash_erase_page FIRMWARE_RELEASE_MSG_PTR2 s1))
            else (rel_msg_size, 0, FIRMWARE_RELEASE_MSG_PTR, s));
         rem_bytes' = (if rem_bytes mod 4 \<noteq> 0 then rem_bytes + (4 - rem_bytes mod 4)
                       else rem_bytes)
     in flash_write (words_at rel_msg rel_msg_read_ptr (drop_bit 2 rem_bytes'))
          rel_msg_write_ptr (drop_bit 2 rem_bytes') s2)"

text \<open>
  The stored version as the handler reads it: an erased word stands for the configured
  oldest version.
\<close>

definition current_version :: "env \<Rightarrow> memory \<Rightarrow> u32" where
  "current_version E m =
     (if load32 m FIRMWARE_VERSION_PTR = 0xFFFFFFFF then OLDEST_VERSION E
      else load32 m FIRMWARE_VERSION_PTR)"

text \<open>
  The value \<open>decrypt_firmware\<close> returns is assigned to the local \<open>ret\<close> and never read;
  what remains of the call is its effect on memory.
\<close>

definition handle_update :: "env \<Rightarrow> (nat \<Rightarrow> u8) \<Rightarrow> state \<Rightarrow> error + state" where
  "handle_update E stack s =
    (let s0 = uart_writeb 0x55 s in
     case recv_version s0 of Inl e \<Rightarrow> Inl e | Inr (version, s1) \<Rightarrow>
    (case recv_size s1 of Inl e \<Rightarrow> Inl e | Inr (sz, s2) \<Rightarrow>
    (case uart_readline 1025 s2 of Inl e \<Rightarrow> Inl e | Inr (msg, s3) \<Rightarrow>
    (case uart_readline 65 s3 of Inl e \<Rightarrow> Inl e | Inr (sha256_hash, s4) \<Rightarrow>
      (let rel_msg = line_buffer stack msg;
           rel_msg_size = of_nat (length msg) + 1;
           current = current_version E (mem s4)
       in if version \<noteq> 0 \<and> version < current then Inr (uart_writeb FRAME_BAD s4)
          else
           (let s5 = flash_erase_page FIRMWARE_METADATA_PTR s4;
                s6 = (if version \<noteq> 0 then flash_write_word version FIRMWARE_VERSION_PTR s5
                      else flash_write_word current FIRMWARE_VERSION_PTR s5);
                s7 = flash_write_word sz FIRMWARE_SIZE_PTR s6;
                s8 = write_release_msg rel_msg rel_msg_size s7;
                s9 = uart_writeb FRAME_OK s8
            in (case load_data FIRMWARE_STORAGE_PTR sz s9 of Inl e \<Rightarrow> Inl e | Inr s10 \<Rightarrow>
                 (case decrypt_firmware E FIRMWARE_BOOT_PTR FIRMWARE_SIZE_PTR (mem s10) of
                    (ret, m) \<Rightarrow> Inr (s10\<lparr>mem := m\<rparr>)))))))))"

section \<open>Concrete inputs\<close>

text \<open>
  A stand-in environment for evaluating the model: a digest that is zero everywhere and
  a 16-byte block cipher whose decryption flips every bit.
\<close>

definition demo_env :: env where
  "demo_env = \<lparr>OLDEST_VERSION = 2,
                br_sha256 = (\<lambda>d i. 0),
                br_aes_big_cbcenc_vtable = \<lparr>enc_block_size = 16, enc_log_block_size = 4\<rparr>,
                br_aes_big_cbcdec_vtable = \<lparr>dec_block_size = 16, dec_log_block_size = 4,
                                             dec_run = (\<lambda>key iv d. map (\<lambda>b. NOT b) d)\<rparr>\<rparr>"

text \<open>The same with a cipher that reports 8-byte blocks.\<close>

definition demo_env8 :: env where
  "demo_env8 = demo_env\<lparr>br_aes_big_cbcdec_vtable :=
                  \<lparr>dec_block_size = 8, dec_log_block_size = 3,
                   dec_run = (\<lambda>key iv d. map (\<lambda>b. NOT b) d)\<rparr>\<rparr>"

definition erased :: memory where
  "erased = (\<lambda>a. 0xFF)"

definition zeroed :: memory where
  "zeroed = (\<lambda>a. 0)"

text \<open>
  A device that has sent nothing yet, with memory \<open>m\<close> and the host about to send
  \<open>input\<close>; a stack of zero bytes; erased flash holding only a version word.
\<close>

definition idle :: "memory \<Rightarrow> u8 list \<Rightarrow> state" where
  "idle m input = \<lparr>mem = m, uart_in = input, uart_out = [], flash_ops = []\<rparr>"

definition no_stack :: "nat \<Rightarrow> u8" where
  "no_stack i = 0"

definition stored_version :: "u32 \<Rightarrow> memory" where
  "stored_version v = write_bytes FIRMWARE_VERSION_PTR (store32 v) erased"

text \<open>
  An environment whose digest depends on the data (byte \<open>i\<close> is the sum of the data
  bytes plus \<open>i\<close>), and two flash images on zeroed memory, each with size word 16 and
  sixteen payload bytes \<open>0xFE\<close> at \<open>FIRMWARE_STORAGE_PTR\<close>: in \<open>valid_image\<close> the
  digest slot holds the digest of the decrypted payload, in \<open>forged_image\<close> it holds the
  digest of the empty byte sequence.
\<close>

definition checksum_env :: env where
  "checksum_env = demo_env\<lparr>br_sha256 := (\<lambda>d i. sum_list d + of_nat i)\<rparr>"

definition valid_image :: memory where
  "valid_image =
     write_bytes FIRMWARE_STORAGE_PTR (replicate 16 0xFE)
       (write_bytes FIRMWARE_HASH_PTR (map (\<lambda>i. 16 + of_nat i) [0..<32])
          (write_bytes FIRMWARE_SIZE_PTR (store32 16) zeroed))"

definition forged_image :: memory where
  "forged_image =
     write_bytes FIRMWARE_STORAGE_PTR (replicate 16 0xFE)
       (write_bytes FIRMWARE_HASH_PTR (map of_nat [0..<32])
          (write_bytes FIRMWARE_SIZE_PTR (store32 16) zeroed))"

text \<open>
  What the claim about the page loader speaks of: the number of pages a payload of
  \<open>L\<close> bytes takes, and the erase and program calls for \<open>n\<close> consecutive pages
  from \<open>dst\<close> on, page by page.
\<close>

definition page_count :: "nat \<Rightarrow> nat" where
  "page_count L = (L + (unat FLASH_PAGE_SIZE - 1)) div unat FLASH_PAGE_SIZE"

fun page_ops :: "u32 \<Rightarrow> nat \<Rightarrow> flash_op list" where
  "page_ops dst 0 = []"
| "page_ops dst (Suc n) =
     Erase dst # Program dst (drop_bit 2 FLASH_PAGE_SIZE) # page_ops (dst + FLASH_PAGE_SIZE) n"

section \<open>The comparison loop\<close>

declare hash_check.simps [simp del]
declare load_data.simps [simp del]

lemma hash_check_fst:
  "fst (hash_check i h d) = 0 \<or> fst (hash_check i h d) = -1"
proof (induction i h d rule: hash_check.induct)
  case (1 i h d)
  show ?case
  proof (cases "i < 32 \<and> h i = d i")
    case True
    then have "hash_check i h d = hash_check (i + 1) h d"
      by (subst hash_check.simps) simp
    then show ?thesis using 1 True by simp
  next
    case False
    then show ?thesis by (subst (1 2) hash_check.simps) auto
  qed
qed

lemma hash_check_zero_iff:
  "fst (hash_check i h d) = 0 \<longleftrightarrow> (\<forall>j. i \<le> j \<and> j < 32 \<longrightarrow> h j = d j)"
proof (induction i h d rule: hash_check.induct)
  case (1 i h d)
  show ?case
  proof (cases "i < 32")
    case False
    then show ?thesis by (subst hash_check.simps) auto
  next
    case True
    show ?thesis
    proof (cases "h i = d i")
      case False
      with True show ?thesis by (subst hash_check.simps) auto
    next
      case eq: True
      have "fst (hash_check i h d) = fst (hash_check (i + 1) h d)"
        using True eq by (subst hash_check.simps) simp
      also have "\<dots> = 0 \<longleftrightarrow> (\<forall>j. i + 1 \<le> j \<and> j < 32 \<longrightarrow> h j = d j)"
        using 1 True eq by simp
      also have "\<dots> \<longleftrightarrow> (\<forall>j. i \<le> j \<and> j < 32 \<longrightarrow> h j = d j)"
        using eq by (metis Suc_eq_plus1 Suc_leI le_neq_implies_less Suc_leD)
      finally show ?thesis .
    qed
  qed
qed

lemma hash_check_result:
  "fst (hash_check 0 h d) = (if \<forall>j<32. h j = d j then 0 else -1)"
  using hash_check_fst [of 0 h d] hash_check_zero_iff [of 0 h d] by auto

section \<open>Words, lines and the update header\<close>

lemma be32_bytes:
  fixes n :: u32
  shows "be32 (ucast (drop_bit 24 n)) (ucast (drop_bit 16 n)) (ucast (drop_bit 8 n)) (ucast n) = n"
proof (rule bit_word_eqI)
  fix k :: nat
  assume k: "k < LENGTH(32)"
  consider "k < 8" | "8 \<le> k" "k < 16" | "16 \<le> k" "k < 24" | "24 \<le> k"
    by linarith
  then show "bit (be32 (ucast (drop_bit 24 n)) (ucast (drop_bit 16 n))
                   (ucast (drop_bit 8 n)) (ucast n)) k = bit n k"
    using k by cases (auto simp add: be32_def bit_simps)
qed

lemma uart_readb_Cons:
  "uart_in s = b # bs \<Longrightarrow> uart_readb s = Inr (b, s\<lparr>uart_in := bs\<rparr>)"
  by (simp add: uart_readb_def)

lemma recv_size_bytes:
  "uart_in s = b3 # b2 # b1 # b0 # rest \<Longrightarrow>
     recv_size s = Inr (be32 b3 b2 b1 b0, s\<lparr>uart_in := rest\<rparr>)"
  by (simp add: recv_size_def uart_readb_def)

lemma recv_version_bytes:
  "uart_in s = b1 # b0 # rest \<Longrightarrow>
     recv_version s = Inr (push_bit 8 (ucast b1) OR ucast b0, s\<lparr>uart_in := rest\<rparr>)"
  by (simp add: recv_version_def uart_readb_def)

lemma readline_loop_line:
  "10 \<notin> set l \<Longrightarrow> length acc + length l < cap \<Longrightarrow>
     readline_loop cap acc (l @ 10 # rest) = Inr (acc @ l, rest)"
  by (induction l arbitrary: acc) auto

lemma uart_readline_line:
  "uart_in s = l @ 10 # rest \<Longrightarrow> 10 \<notin> set l \<Longrightarrow> length l < cap \<Longrightarrow>
     uart_readline cap s = Inr (l, s\<lparr>uart_in := rest\<rparr>)"
  using readline_loop_line [of l "[]" cap rest] by (simp add: uart_readline_def)

lemma le32_bytes:
  fixes v :: u32
  shows "ucast (ucast v :: u8) OR push_bit 8 (ucast (ucast (drop_bit 8 v) :: u8))
         OR push_bit 16 (ucast (ucast (drop_bit 16 v) :: u8))
         OR push_bit 24 (ucast (ucast (drop_bit 24 v) :: u8)) = v"
proof (rule bit_word_eqI)
  fix k :: nat
  assume k: "k < LENGTH(32)"
  consider "k < 8" | "8 \<le> k" "k < 16" | "16 \<le> k" "k < 24" | "24 \<le> k"
    by linarith
  then show "bit (ucast (ucast v :: u8) OR push_bit 8 (ucast (ucast (drop_bit 8 v) :: u8))
         OR push_bit 16 (ucast (ucast (drop_bit 16 v) :: u8))
         OR push_bit 24 (ucast (ucast (drop_bit 24 v) :: u8)) :: u32) k = bit v k"
    using k by cases (auto simp add: bit_simps)
qed

lemma load32_store32:
  "load32 (write_bytes a (store32 v) m) a = v"
proof -
  have "a + 1 \<noteq> a" "a + 2 \<noteq> a" "a + 3 \<noteq> a" "a + 2 \<noteq> a + 1" "a + 3 \<noteq> a + 1" "a + 3 \<noteq> a + 2"
    by simp_all
  then show ?thesis
    using le32_bytes [of v]
    by (simp add: load32_def store32_def add.assoc [symmetric])
qed

lemma handle_update_header:
  assumes "uart_in s = v1 # v0 # z3 # z2 # z1 # z0 # msg @ 10 # sha @ 10 # rest"
      and "10 \<notin> set msg" "length msg \<le> 1024" "10 \<notin> set sha" "length sha \<le> 64"
  shows "recv_version (s\<lparr>uart_out := uart_out s @ [0x55]\<rparr>) =
           Inr (push_bit 8 (ucast v1) OR ucast v0,
                s\<lparr>uart_in := z3 # z2 # z1 # z0 # msg @ 10 # sha @ 10 # rest,
                  uart_out := uart_out s @ [0x55]\<rparr>)"
    and "recv_size (s\<lparr>uart_in := z3 # z2 # z1 # z0 # msg @ 10 # sha @ 10 # rest,
                  uart_out := uart_out s @ [0x55]\<rparr>) =
           Inr (be32 z3 z2 z1 z0,
                s\<lparr>uart_in := msg @ 10 # sha @ 10 # rest, uart_out := uart_out s @ [0x55]\<rparr>)"
    and "uart_readline 1025 (s\<lparr>uart_in := msg @ 10 # sha @ 10 # rest,
                               uart_out := uart_out s @ [0x55]\<rparr>) =
           Inr (msg, s\<lparr>uart_in := sha @ 10 # rest, uart_out := uart_out s @ [0x55]\<rparr>)"
    and "uart_readline 65 (s\<lparr>uart_in := sha @ 10 # rest, uart_out := uart_out s @ [0x55]\<rparr>) =
           Inr (sha, s\<lparr>uart_in := rest, uart_out := uart_out s @ [0x55]\<rparr>)"
proof -
  show "recv_version (s\<lparr>uart_out := uart_out s @ [0x55]\<rparr>) =
           Inr (push_bit 8 (ucast v1) OR ucast v0,
                s\<lparr>uart_in := z3 # z2 # z1 # z0 # msg @ 10 # sha @ 10 # rest,
                  uart_out := uart_out s @ [0x55]\<rparr>)"
    using assms(1) by (simp add: recv_version_def uart_readb_def)
  show "recv_size (s\<lparr>uart_in := z3 # z2 # z1 # z0 # msg @ 10 # sha @ 10 # rest,
                  uart_out := uart_out s @ [0x55]\<rparr>) =
           Inr (be32 z3 z2 z1 z0,
                s\<lparr>uart_in := msg @ 10 # sha @ 10 # rest, uart_out := uart_out s @ [0x55]\<rparr>)"
    by (simp add: recv_size_def uart_readb_def)
  show "uart_readline 1025 (s\<lparr>uart_in := msg @ 10 # sha @ 10 # rest,
                               uart_out := uart_out s @ [0x55]\<rparr>) =
           Inr (msg, s\<lparr>uart_in := sha @ 10 # rest, uart_out := uart_out s @ [0x55]\<rparr>)"
    using assms(2,3) readline_loop_line [of msg "[]" 1025 "sha @ 10 # rest"]
    by (simp add: uart_readline_def)
  show "uart_readline 65 (s\<lparr>uart_in := sha @ 10 # rest, uart_out := uart_out s @ [0x55]\<rparr>) =
           Inr (sha, s\<lparr>uart_in := rest, uart_out := uart_out s @ [0x55]\<rparr>)"
    using assms(4,5) readline_loop_line [of sha "[]" 65 rest]
    by (simp add: uart_readline_def)
qed

section \<open>The two flash images\<close>

lemma upt32: "[0..<32] = [0,1,2,3,4,5,6,7,8,9,10,11,12,13,14,15,16,17,18,19,20,21,22,23,24,25,26,27,28,29,30,31]"
  by (simp add: upt_rec)

lemma upt16: "[0..<16] = [0,1,2,3,4,5,6,7,8,9,10,11,12,13,14,15]"
  by (simp add: upt_rec)

lemma rep16: "replicate 16 x = [x,x,x,x,x,x,x,x,x,x,x,x,x,x,x,x]"
  by (simp add: numeral_eq_Suc)

lemma vi_size: "load32 valid_image FIRMWARE_SIZE_PTR = 16"
  by (simp add: valid_image_def load32_def store32_def upt32 rep16 zeroed_def
      FIRMWARE_SIZE_PTR_def FIRMWARE_METADATA_PTR_def FIRMWARE_HASH_PTR_def
      FIRMWARE_STORAGE_PTR_def FLASH_START_def FLASH_PAGE_SIZE_def)

lemma vi_payload: "read_bytes valid_image FIRMWARE_STORAGE_PTR 16 = replicate 16 0xFE"
  by (simp add: valid_image_def read_bytes_def upt16 upt32 rep16 zeroed_def store32_def
      FIRMWARE_SIZE_PTR_def FIRMWARE_METADATA_PTR_def FIRMWARE_HASH_PTR_def
      FIRMWARE_STORAGE_PTR_def FLASH_START_def FLASH_PAGE_SIZE_def)

lemma vi_digest:
  "read_bytes valid_image FIRMWARE_HASH_PTR 32 =
     map (br_sha256 checksum_env
            (dec_run (br_aes_big_cbcdec_vtable checksum_env) aes_key (replicate 16 0)
               (replicate 16 0xFE))) [0..<32]"
  by (simp add: valid_image_def read_bytes_def upt32 rep16 zeroed_def store32_def
      checksum_env_def demo_env_def
      FIRMWARE_SIZE_PTR_def FIRMWARE_METADATA_PTR_def FIRMWARE_HASH_PTR_def
      FIRMWARE_STORAGE_PTR_def FLASH_START_def FLASH_PAGE_SIZE_def)

lemma vi_ram: "load32 valid_image (FIRMWARE_BOOT_PTR + FIRMWARE_SIZE_PTR) = 0"
  by (simp add: valid_image_def load32_def store32_def upt32 rep16 zeroed_def
      FIRMWARE_SIZE_PTR_def FIRMWARE_METADATA_PTR_def FIRMWARE_HASH_PTR_def FIRMWARE_BOOT_PTR_def
      FIRMWARE_STORAGE_PTR_def FLASH_START_def FLASH_PAGE_SIZE_def)

lemma vi_hash0: "valid_image FIRMWARE_HASH_PTR = 16"
  by (simp add: valid_image_def upt32 rep16 zeroed_def store32_def
      FIRMWARE_SIZE_PTR_def FIRMWARE_METADATA_PTR_def FIRMWARE_HASH_PTR_def
      FIRMWARE_STORAGE_PTR_def FLASH_START_def FLASH_PAGE_SIZE_def)

lemma decrypt_firmware_unfold:
  "img \<noteq> 0 \<Longrightarrow> load32 m (img + FIRMWARE_SIZE_PTR) = 0 \<Longrightarrow>
     decrypt_firmware E img totalsize m =
       (if \<forall>j<32. br_sha256 E [] j = m (FIRMWARE_HASH_PTR + of_nat j) then 0 else -1, m)"
  by (simp add: decrypt_firmware_def Let_def do_AES_decrypt_def compute_sha256_def
      read_bytes_def hash_check_result)

lemma fi_ram: "load32 forged_image (FIRMWARE_BOOT_PTR + FIRMWARE_SIZE_PTR) = 0"
  by (simp add: forged_image_def load32_def store32_def upt32 rep16 zeroed_def
      FIRMWARE_SIZE_PTR_def FIRMWARE_METADATA_PTR_def FIRMWARE_HASH_PTR_def FIRMWARE_BOOT_PTR_def
      FIRMWARE_STORAGE_PTR_def FLASH_START_def FLASH_PAGE_SIZE_def)

lemma fi_digest: "read_bytes forged_image FIRMWARE_HASH_PTR 32 = map of_nat [0..<32]"
  by (simp add: forged_image_def read_bytes_def upt32 rep16 zeroed_def store32_def
      FIRMWARE_SIZE_PTR_def FIRMWARE_METADATA_PTR_def FIRMWARE_HASH_PTR_def
      FIRMWARE_STORAGE_PTR_def FLASH_START_def FLASH_PAGE_SIZE_def)

lemma fi_payload: "read_bytes forged_image FIRMWARE_STORAGE_PTR 16 = replicate 16 0xFE"
  by (simp add: forged_image_def read_bytes_def upt16 upt32 rep16 zeroed_def store32_def
      FIRMWARE_SIZE_PTR_def FIRMWARE_METADATA_PTR_def FIRMWARE_HASH_PTR_def
      FIRMWARE_STORAGE_PTR_def FLASH_START_def FLASH_PAGE_SIZE_def)

lemma fi_stored: "j < 32 \<Longrightarrow> forged_image (FIRMWARE_HASH_PTR + of_nat j) = of_nat j"
proof -
  assume j: "j < 32"
  have "read_bytes forged_image FIRMWARE_HASH_PTR 32 ! j = map of_nat [0..<32] ! j"
    by (simp only: fi_digest)
  then show ?thesis using j by (simp add: read_bytes_def)
qed

section \<open>The integrity pipeline: results\<close>

text \<open>
  Claim C1. The claim asks for 0 exactly when the pointer is not null and the digest of
  the decrypted payload equals the stored digest. The code does not hash the payload: the
  bytes it decrypts and hashes start at \<open>FIRMWARE_DATA_PTR\<close>, which the \<open>unsigned char\<close>
  cast makes address 0, and their number is the word at \<open>image + FIRMWARE_SIZE_PTR\<close>.
  Called as \<open>handle_update\<close> calls it, on \<open>valid_image\<close> (pointer not null, size word
  16, stored digest equal to the digest of the decrypted sixteen payload bytes) it
  returns -1 and leaves the payload undecrypted; on \<open>forged_image\<close>, whose stored digest
  differs from that of its decrypted payload, it returns 0.
\<close>

theorem decrypt_firmware_wrong_bytes:
  "FIRMWARE_BOOT_PTR \<noteq> 0
   \<and> load32 valid_image FIRMWARE_SIZE_PTR = 16
   \<and> read_bytes valid_image FIRMWARE_HASH_PTR 32 =
       map (br_sha256 checksum_env
              (dec_run (br_aes_big_cbcdec_vtable checksum_env) aes_key (replicate 16 0)
                 (read_bytes valid_image FIRMWARE_STORAGE_PTR 16))) [0..<32]
   \<and> decrypt_firmware checksum_env FIRMWARE_BOOT_PTR FIRMWARE_SIZE_PTR valid_image
       = (-1, valid_image)
   \<and> read_bytes forged_image FIRMWARE_HASH_PTR 32 \<noteq>
       map (br_sha256 checksum_env
              (dec_run (br_aes_big_cbcdec_vtable checksum_env) aes_key (replicate 16 0)
                 (read_bytes forged_image FIRMWARE_STORAGE_PTR 16))) [0..<32]
   \<and> decrypt_firmware checksum_env FIRMWARE_BOOT_PTR FIRMWARE_SIZE_PTR forged_image
       = (0, forged_image)"
proof -
  have nz: "FIRMWARE_BOOT_PTR \<noteq> 0"
    by (simp add: FIRMWARE_BOOT_PTR_def)
  have a: "decrypt_firmware checksum_env FIRMWARE_BOOT_PTR FIRMWARE_SIZE_PTR valid_image
       = (-1, valid_image)"
  proof -
    have "br_sha256 checksum_env [] 0 \<noteq> valid_image (FIRMWARE_HASH_PTR + of_nat 0)"
      by (simp add: vi_hash0 checksum_env_def)
    then have "\<not> (\<forall>j<32. br_sha256 checksum_env [] j = valid_image (FIRMWARE_HASH_PTR + of_nat j))"
      by (metis zero_less_numeral)
    then have "(\<forall>j<32. br_sha256 checksum_env [] j = valid_image (FIRMWARE_HASH_PTR + of_nat j))
                = False"
      by simp
    then show ?thesis
      by (simp only: decrypt_firmware_unfold [OF nz vi_ram] if_False)
  qed
  have b: "decrypt_firmware checksum_env FIRMWARE_BOOT_PTR FIRMWARE_SIZE_PTR forged_image
       = (0, forged_image)"
  proof -
    have "\<forall>j<32. br_sha256 checksum_env [] j = forged_image (FIRMWARE_HASH_PTR + of_nat j)"
      by (simp add: fi_stored checksum_env_def)
    then have "(\<forall>j<32. br_sha256 checksum_env [] j = forged_image (FIRMWARE_HASH_PTR + of_nat j))
                = True"
      by simp
    then show ?thesis
      by (simp only: decrypt_firmware_unfold [OF nz fi_ram] if_True)
  qed
  have c: "read_bytes forged_image FIRMWARE_HASH_PTR 32 \<noteq>
       map (br_sha256 checksum_env
              (dec_run (br_aes_big_cbcdec_vtable checksum_env) aes_key (replicate 16 0)
                 (read_bytes forged_image FIRMWARE_STORAGE_PTR 16))) [0..<32]"
    by (simp add: fi_digest fi_payload rep16 checksum_env_def demo_env_def upt32)
  show ?thesis
    using nz vi_size vi_digest a b c by (simp add: vi_payload)
qed

text \<open>
  Claim C9. When one of the two cipher classes reports a block size other than 16 or a
  log-block-size other than 4, \<open>do_AES_decrypt\<close> leaves memory as it was, so does the
  whole of \<open>decrypt_firmware\<close>, the result is still only 0 or -1, and it is 0 exactly
  when the pointer is not null and the digest of the undecrypted bytes equals the stored
  digest: the condition shows in nothing but the digest comparison.
\<close>

theorem do_AES_decrypt_block_size_guard:
  assumes "enc_block_size (br_aes_big_cbcenc_vtable E) \<noteq> 16
         \<or> dec_block_size (br_aes_big_cbcdec_vtable E) \<noteq> 16
         \<or> enc_log_block_size (br_aes_big_cbcenc_vtable E) \<noteq> 4
         \<or> dec_log_block_size (br_aes_big_cbcdec_vtable E) \<noteq> 4"
  shows "do_AES_decrypt enc_data len (br_aes_big_cbcenc_vtable E) (br_aes_big_cbcdec_vtable E) m = m
       \<and> snd (decrypt_firmware E img totalsize m) = m
       \<and> (fst (decrypt_firmware E img totalsize m) = 0
            \<or> fst (decrypt_firmware E img totalsize m) = -1)
       \<and> (fst (decrypt_firmware E img totalsize m) = 0 \<longleftrightarrow>
            img \<noteq> 0 \<and>
            (\<forall>i<32. br_sha256 E (read_bytes m FIRMWARE_DATA_PTR
                                   (unat (load32 m (img + FIRMWARE_SIZE_PTR)))) i
                     = m (FIRMWARE_HASH_PTR + of_nat i)))"
proof -
  have id: "\<And>a n. do_AES_decrypt a n (br_aes_big_cbcenc_vtable E) (br_aes_big_cbcdec_vtable E) m = m"
    using assms unfolding do_AES_decrypt_def by presburger
  show ?thesis
    by (simp add: id decrypt_firmware_def Let_def hash_check_result compute_sha256_def)
qed


theorem do_AES_decrypt_block_size_guard_witness:
  "do_AES_decrypt FIRMWARE_DATA_PTR 16 (br_aes_big_cbcenc_vtable demo_env8)
      (br_aes_big_cbcdec_vtable demo_env8) erased = erased
   \<and> snd (decrypt_firmware demo_env8 FIRMWARE_BOOT_PTR FIRMWARE_SIZE_PTR erased) = erased
   \<and> fst (decrypt_firmware demo_env8 FIRMWARE_BOOT_PTR FIRMWARE_SIZE_PTR erased) = -1"
proof -
  have ex: "\<not> (\<forall>i::nat. \<not> i < 32)"
    by (simp add: exI [of _ 0])
  show ?thesis
    using do_AES_decrypt_block_size_guard
            [of demo_env8 FIRMWARE_DATA_PTR 16 erased FIRMWARE_BOOT_PTR FIRMWARE_SIZE_PTR]
    by (auto simp add: demo_env8_def demo_env_def erased_def FIRMWARE_BOOT_PTR_def ex)
qed

text \<open>
  Claim C10. \<open>decrypt_firmware\<close> never reads its \<open>totalsize\<close> parameter: with the same
  image pointer and the same memory, any two values of it give the same result and the
  same memory. The byte count comes from the word at \<open>image + FIRMWARE_SIZE_PTR\<close>.
\<close>

theorem decrypt_firmware_ignores_totalsize:
  "decrypt_firmware E img totalsize1 m = decrypt_firmware E img totalsize2 m"
  by (simp add: decrypt_firmware_def)

section \<open>Readback\<close>

text \<open>
  Claim C8. A readback with selector \<open>'F'\<close> (0x46) or \<open>'C'\<close> (0x43) and any 32-bit
  size \<open>n\<close>, sent big-endian, answers \<open>'R'\<close>, the selector, and then the \<open>n\<close> bytes
  found at the firmware or configuration storage base, byte \<open>i\<close> being the one at
  \<open>base + i\<close>; the recorded payload size is never consulted. With any other selector
  the handler returns after the \<open>'R'\<close> alone. In both cases memory and the list of
  flash operations are as before.
\<close>

theorem handle_readback_identity:
  fixes n :: u32
  shows
  "(sel = 0x46 \<or> sel = 0x43 \<longrightarrow>
      handle_readback (s\<lparr>uart_in := sel # ucast (drop_bit 24 n) # ucast (drop_bit 16 n)
                                   # ucast (drop_bit 8 n) # ucast n # rest\<rparr>) =
        Inr (s\<lparr>uart_in := rest,
               uart_out := uart_out s @ [0x52, sel] @
                 read_bytes (mem s)
                   (if sel = 0x46 then FIRMWARE_STORAGE_PTR else CONFIGURATION_STORAGE_PTR)
                   (unat n)\<rparr>))
   \<and> (sel \<noteq> 0x46 \<and> sel \<noteq> 0x43 \<longrightarrow>
        handle_readback (s\<lparr>uart_in := sel # rest\<rparr>) =
          Inr (s\<lparr>uart_in := rest, uart_out := uart_out s @ [0x52]\<rparr>))
   \<and> length (read_bytes (mem s) a (unat n)) = unat n
   \<and> (\<forall>i<unat n. read_bytes (mem s) a (unat n) ! i = mem s (a + of_nat i))"
proof -
  let ?bs = "ucast (drop_bit 24 n) # ucast (drop_bit 16 n) # ucast (drop_bit 8 n) # ucast n # rest"
  have sz: "\<And>t. uart_in t = ?bs \<Longrightarrow> recv_size t = Inr (n, t\<lparr>uart_in := rest\<rparr>)"
    using recv_size_bytes [of _ "ucast (drop_bit 24 n)" "ucast (drop_bit 16 n)"
                                "ucast (drop_bit 8 n)" "ucast n" rest]
    by (simp add: be32_bytes)
  have F: "handle_readback (s\<lparr>uart_in := 0x46 # ?bs\<rparr>) =
        Inr (s\<lparr>uart_in := rest,
               uart_out := uart_out s @ [0x52, 0x46] @
                 read_bytes (mem s) FIRMWARE_STORAGE_PTR (unat n)\<rparr>)"
    by (simp add: handle_readback_def uart_writeb_def uart_readb_def sz uart_write_def)
  have C: "handle_readback (s\<lparr>uart_in := 0x43 # ?bs\<rparr>) =
        Inr (s\<lparr>uart_in := rest,
               uart_out := uart_out s @ [0x52, 0x43] @
                 read_bytes (mem s) CONFIGURATION_STORAGE_PTR (unat n)\<rparr>)"
    by (simp add: handle_readback_def uart_writeb_def uart_readb_def sz uart_write_def)
  have other: "sel \<noteq> 0x46 \<and> sel \<noteq> 0x43 \<longrightarrow>
        handle_readback (s\<lparr>uart_in := sel # rest\<rparr>) =
          Inr (s\<lparr>uart_in := rest, uart_out := uart_out s @ [0x52]\<rparr>)"
    by (simp add: handle_readback_def uart_writeb_def uart_readb_def)
  have rd: "length (read_bytes (mem s) a (unat n)) = unat n
     \<and> (\<forall>i<unat n. read_bytes (mem s) a (unat n) ! i = mem s (a + of_nat i))"
    by (simp add: read_bytes_def)
  show ?thesis using F C other rd by auto
qed

theorem handle_readback_identity_witness:
  "handle_readback (idle erased [0x46, 0, 0, 0, 2]) =
     Inr ((idle erased []) \<lparr>uart_out := [0x52, 0x46, 0xFF, 0xFF]\<rparr>)
   \<and> handle_readback (idle erased [0x58, 1]) = Inr ((idle erased [1]) \<lparr>uart_out := [0x52]\<rparr>)"
  using handle_readback_identity [where sel = "0x46" and s = "idle erased []" and n = 2 and rest = "[]"]
        handle_readback_identity [where sel = "0x58" and s = "idle erased []" and n = 0 and rest = "[1]"]
  by (simp add: idle_def erased_def read_bytes_def upt_rec)

section \<open>Rejecting a stale version\<close>

text \<open>
  Claim C5. When the received version is not zero and is below the current version,
  the handler sends \<open>0x01\<close> (\<open>FRAME_BAD\<close>) right after its \<open>'U'\<close> and returns: the
  state differs from the initial one only in the bytes consumed and sent, so memory is
  unchanged and no flash operation has been issued. The payload bytes stay unread.
\<close>

theorem handle_update_stale_rejected:
  assumes "uart_in s = v1 # v0 # z3 # z2 # z1 # z0 # msg @ 10 # sha @ 10 # rest"
      and "10 \<notin> set msg" "length msg \<le> 1024" "10 \<notin> set sha" "length sha \<le> 64"
      and "push_bit 8 (ucast v1) OR ucast v0 \<noteq> (0 :: u32)"
      and "push_bit 8 (ucast v1) OR ucast v0 < current_version E (mem s)"
  shows "handle_update E stack s =
           Inr (s\<lparr>uart_in := rest, uart_out := uart_out s @ [0x55, 0x01]\<rparr>)
         \<and> FRAME_BAD = 0x01"
  using assms(6,7)
  by (simp add: handle_update_def handle_update_header [OF assms(1-5)] Let_def
        uart_writeb_def FRAME_BAD_def)

theorem handle_update_stale_rejected_witness:
  "handle_update demo_env no_stack
     (idle (stored_version 5) [0x00, 0x03, 0, 0, 0, 4, 0x68, 0x69, 10, 0x61, 10, 1, 2, 3, 4]) =
   Inr ((idle (stored_version 5) [1, 2, 3, 4]) \<lparr>uart_out := [0x55, 0x01]\<rparr>)"
proof -
  have cur: "current_version demo_env (stored_version 5) = 5"
    by (simp add: current_version_def stored_version_def load32_store32)
  show ?thesis
    using handle_update_stale_rejected
      [where s = "idle (stored_version 5) [0x00, 0x03, 0, 0, 0, 4, 0x68, 0x69, 10, 0x61, 10, 1, 2, 3, 4]"
         and ?v1.0 = 0 and ?v0.0 = 3 and ?z3.0 = 0 and ?z2.0 = 0 and ?z1.0 = 0 and ?z0.0 = 4
         and msg = "[0x68, 0x69]" and sha = "[0x61]" and rest = "[1, 2, 3, 4]"
         and E = demo_env and stack = no_stack]
    by (simp add: idle_def cur)
qed

section \<open>The verdict is dropped\<close>

text \<open>
  Claim C4. Two runs of the update handler that differ only in the digest function,
  and so only in what the digest comparison yields, end in the same result: the same
  bytes sent to the host, the same memory, the same flash operations, or the same
  failure. The comparison itself does come out differently between such runs: on zeroed
  memory a digest of zero bytes gives 0 and a digest of one bytes gives -1.
\<close>

theorem handle_update_digest_blind:
  "handle_update (E\<lparr>br_sha256 := h1\<rparr>) stack s = handle_update (E\<lparr>br_sha256 := h2\<rparr>) stack s
   \<and> fst (decrypt_firmware (demo_env\<lparr>br_sha256 := (\<lambda>d i. 0)\<rparr>)
            FIRMWARE_BOOT_PTR FIRMWARE_SIZE_PTR zeroed) = 0
   \<and> fst (decrypt_firmware (demo_env\<lparr>br_sha256 := (\<lambda>d i. 1)\<rparr>)
            FIRMWARE_BOOT_PTR FIRMWARE_SIZE_PTR zeroed) = -1"
proof -
  have snd_eq: "\<And>m. snd (decrypt_firmware (E\<lparr>br_sha256 := h1\<rparr>) FIRMWARE_BOOT_PTR FIRMWARE_SIZE_PTR m)
              = snd (decrypt_firmware (E\<lparr>br_sha256 := h2\<rparr>) FIRMWARE_BOOT_PTR FIRMWARE_SIZE_PTR m)"
    by (simp add: decrypt_firmware_def Let_def)
  have cur: "\<And>m. current_version (E\<lparr>br_sha256 := h1\<rparr>) m = current_version (E\<lparr>br_sha256 := h2\<rparr>) m"
    by (simp add: current_version_def)
  have tail: "\<And>t :: state.
      case_prod (\<lambda>ret m. (Inr (t\<lparr>mem := m\<rparr>) :: error + state))
        (decrypt_firmware (E\<lparr>br_sha256 := h1\<rparr>) FIRMWARE_BOOT_PTR FIRMWARE_SIZE_PTR (mem t))
      = case_prod (\<lambda>ret m. Inr (t\<lparr>mem := m\<rparr>))
        (decrypt_firmware (E\<lparr>br_sha256 := h2\<rparr>) FIRMWARE_BOOT_PTR FIRMWARE_SIZE_PTR (mem t))"
    by (simp add: split_def snd_eq)
  have run: "handle_update (E\<lparr>br_sha256 := h1\<rparr>) stack s = handle_update (E\<lparr>br_sha256 := h2\<rparr>) stack s"
    by (simp only: handle_update_def cur tail)
  have nz: "FIRMWARE_BOOT_PTR \<noteq> 0"
    by (simp add: FIRMWARE_BOOT_PTR_def)
  have ram: "load32 zeroed (FIRMWARE_BOOT_PTR + FIRMWARE_SIZE_PTR) = 0"
    by (simp add: load32_def zeroed_def)
  have z: "\<And>x. zeroed x = 0"
    by (simp add: zeroed_def)
  have ok: "fst (decrypt_firmware (demo_env\<lparr>br_sha256 := (\<lambda>d i. 0)\<rparr>)
            FIRMWARE_BOOT_PTR FIRMWARE_SIZE_PTR zeroed) = 0"
    by (simp add: decrypt_firmware_unfold [OF nz ram] z)
  have "\<not> (\<forall>j::nat. \<not> j < 32)"
    by (simp add: exI [of _ 0])
  then have bad: "fst (decrypt_firmware (demo_env\<lparr>br_sha256 := (\<lambda>d i. 1)\<rparr>)
            FIRMWARE_BOOT_PTR FIRMWARE_SIZE_PTR zeroed) = -1"
    by (simp add: decrypt_firmware_unfold [OF nz ram] z)
  show ?thesis using run ok bad by simp
qed

section \<open>The page loader\<close>

lemma write_bytes_append:
  "write_bytes a (xs @ ys) m = write_bytes (a + of_nat (length xs)) ys (write_bytes a xs m)"
  by (induction xs arbitrary: a m) (simp_all add: add.assoc)

lemma unat_minus_succ:
  fixes x a :: u32
  assumes "x \<noteq> a"
  shows "unat (x - (a + 1)) = unat (x - a) - 1"
proof -
  have "x - a \<noteq> 0" using assms by simp
  then have "unat (x - a - 1) = unat (x - a) - 1"
    by (rule unat_minus_one)
  then show ?thesis by (simp add: diff_diff_eq)
qed

lemma write_bytes_outside:
  "length bs \<le> unat (x - a) \<Longrightarrow> write_bytes a bs m x = m x"
proof (induction bs arbitrary: a m)
  case Nil
  show ?case by simp
next
  case (Cons b bs)
  then have ne: "x \<noteq> a" by auto
  then have "length bs \<le> unat (x - (a + 1))"
    using Cons.prems by (simp add: unat_minus_succ)
  then show ?case using Cons.IH ne by simp
qed

lemma write_bytes_inside:
  "unat (x - a) < length bs \<Longrightarrow> length bs \<le> 2 ^ 32 \<Longrightarrow>
     write_bytes a bs m x = bs ! unat (x - a)"
proof (induction bs arbitrary: a m)
  case Nil
  then show ?case by simp
next
  case (Cons b bs)
  show ?case
  proof (cases "x = a")
    case True
    have "a - (a + 1) = -1" by simp
    then have "unat (a - (a + 1)) = 2 ^ 32 - 1"
      by (simp add: unsigned_minus_1_eq_mask mask_eq_exp_minus_1)
    then have "length bs \<le> unat (a - (a + 1))"
      using Cons.prems(2) by simp
    then show ?thesis using True by (simp add: write_bytes_outside)
  next
    case False
    then have pos: "0 < unat (x - a)"
      by (simp add: unat_gt_0)
    have "unat (x - (a + 1)) < length bs"
      using Cons.prems(1) pos by (simp add: unat_minus_succ [OF False])
    then have "write_bytes (a + 1) bs (m(a := b)) x = bs ! unat (x - (a + 1))"
      using Cons.IH Cons.prems(2) by simp
    then show ?thesis
      using pos by (simp add: unat_minus_succ [OF False] nth_Cons')
  qed
qed

lemma page_bounds:
  fixes a b :: nat
  assumes d: "a mod 1024 = 0" and q: "b div 1024 = a div 1024"
  shows "a \<le> b \<and> b < a + 1024"
proof -
  have a: "a = 1024 * (a div 1024)" using d by (metis mult_div_mod_eq add.right_neutral)
  have b: "b = 1024 * (b div 1024) + b mod 1024" by simp
  have "b mod 1024 < 1024" by simp
  then show ?thesis using a b q by linarith
qed

lemma same_page:
  fixes x dst :: u32
  assumes "dst mod 1024 = 0" "x div 1024 = dst div 1024"
  shows "unat (x - dst) < 1024"
proof -
  have "unat (dst mod 1024) = 0" using assms(1) by simp
  then have d: "unat dst mod 1024 = 0"
    by (simp add: unat_mod)
  have "unat (x div 1024) = unat (dst div 1024)" using assms(2) by simp
  then have q: "unat x div 1024 = unat dst div 1024"
    by (simp add: unat_div)
  have le: "unat dst \<le> unat x" and lt: "unat x < unat dst + 1024"
    using page_bounds [OF d q] by simp_all
  from le have "dst \<le> x" by (simp add: word_le_nat_alt)
  then have "unat (x - dst) = unat x - unat dst" by (rule unat_sub)
  then show ?thesis using le lt by linarith
qed

lemma aligned_next:
  fixes dst :: u32
  assumes "dst mod 1024 = 0"
  shows "(dst + 1024) mod 1024 = 0"
proof -
  have "unat (dst mod 1024) = 0" using assms by simp
  then have d: "unat dst mod 1024 = 0"
    by (simp add: unat_mod)
  have "(1024::nat) dvd 2 ^ 32" by simp
  then have "(unat dst + 1024) mod 2 ^ 32 mod 1024 = (unat dst + 1024) mod 1024"
    by (rule mod_mod_cancel)
  then have "(unat dst + 1024) mod 2 ^ 32 mod 1024 = 0" using d by simp
  moreover have "unat ((dst + 1024) mod 1024) = ((unat dst + 1024) mod 2 ^ 32) mod 1024"
    by (simp add: unat_mod unat_word_ariths)
  ultimately show ?thesis by (simp add: unat_eq_0)
qed

lemma erase_then_write:
  fixes dst :: u32
  assumes "dst mod 1024 = 0" "length page = 1024"
  shows "write_bytes dst page (\<lambda>x. if x div 1024 = dst div 1024 then 0xFF else m x)
         = write_bytes dst page m"
proof
  fix x
  show "write_bytes dst page (\<lambda>x. if x div 1024 = dst div 1024 then 0xFF else m x) x
         = write_bytes dst page m x"
  proof (cases "unat (x - dst) < 1024")
    case True
    then show ?thesis using assms(2) by (simp add: write_bytes_inside)
  next
    case False
    then have "x div 1024 \<noteq> dst div 1024"
      using same_page [OF assms(1)] by blast
    then show ?thesis using False assms(2) by (simp add: write_bytes_outside)
  qed
qed

lemma page_count_0: "page_count 0 = 0"
  by (simp add: page_count_def FLASH_PAGE_SIZE_def)

lemma page_count_1: "0 < L \<Longrightarrow> L \<le> 1024 \<Longrightarrow> page_count L = 1"
  by (simp add: page_count_def FLASH_PAGE_SIZE_def)

lemma page_count_more: "1024 < L \<Longrightarrow> page_count L = Suc (page_count (L - 1024))"
proof -
  assume "1024 < L"
  then have "L + 1023 = (L - 1024 + 1023) + 1024" by simp
  then have "(L + 1023) div 1024 = (L - 1024 + 1023) div 1024 + 1"
    by (metis div_add_self2 zero_neq_numeral)
  then show ?thesis by (simp add: page_count_def FLASH_PAGE_SIZE_def)
qed

lemma page_count_covers: "L \<le> page_count L * 1024"
proof -
  have "L + 1023 < ((L + 1023) div 1024) * 1024 + 1024"
    by (metis add.commute div_mult_mod_eq add_less_cancel_left mod_less_divisor zero_less_numeral)
  then show ?thesis by (simp add: page_count_def FLASH_PAGE_SIZE_def)
qed

lemma load_data_step:
  assumes pos: "0 < sz"
      and inp: "uart_in s = data @ rest"
      and len: "length data = unat sz"
      and al: "dst mod 1024 = 0"
  shows "load_data dst sz s =
         load_data (dst + 1024) (sz - of_nat (min (length data) 1024))
           (s\<lparr>mem := write_bytes dst
                       (take (min (length data) 1024) data
                          @ replicate (1024 - min (length data) 1024) 0xFF) (mem s),
              uart_in := drop (min (length data) 1024) data @ rest,
              uart_out := uart_out s @ [FRAME_OK],
              flash_ops := flash_ops s @ [Erase dst, Program dst 256]\<rparr>)"
proof -
  let ?k = "min (length data) 1024"
  let ?fs = "if sz > FLASH_PAGE_SIZE then FLASH_PAGE_SIZE else sz"
  have fs: "unat ?fs = ?k"
    using len by (auto simp add: FLASH_PAGE_SIZE_def word_less_nat_alt min_def)
  have fsw: "?fs = of_nat ?k"
    by (simp only: fs [symmetric] of_nat_unat ucast_id)
  have rd: "uart_read ?k s = Inr (take ?k data, s\<lparr>uart_in := drop ?k data @ rest\<rparr>)"
    using inp by (simp add: uart_read_def)
  let ?page = "take ?k data @ replicate (1024 - ?k) 0xFF"
  have pl: "length ?page = 1024" by simp
  have db: "unat (drop_bit 2 (1024 :: u32)) = 256" by simp
  note wr = erase_then_write [OF al pl]
  have st: "\<And>A B C D. s\<lparr>uart_in := A, mem := B, flash_ops := C, uart_out := D\<rparr>
                     = s\<lparr>mem := B, uart_in := A, uart_out := D, flash_ops := C\<rparr>"
    by simp
  show ?thesis
    apply (subst load_data.simps)
    apply (simp only: pos if_True Let_def fs rd sum.case prod.case fsw [symmetric])
    apply (simp add: fs fsw flash_erase_page_def flash_write_def uart_writeb_def
             FLASH_PAGE_SIZE_def wr)
    apply (simp only: st)
    apply simp
    done
qed

lemma load_data_pages:
  "uart_in s = data @ rest \<Longrightarrow> length data = unat sz \<Longrightarrow> dst mod 1024 = 0 \<Longrightarrow>
   load_data dst sz s =
     Inr (s\<lparr>mem := write_bytes dst
                    (data @ replicate (page_count (length data) * 1024 - length data) 0xFF)
                    (mem s),
            uart_in := rest,
            uart_out := uart_out s @ replicate (page_count (length data)) FRAME_OK,
            flash_ops := flash_ops s @ page_ops dst (page_count (length data))\<rparr>)"
proof (induction "length data" arbitrary: data dst sz s rule: less_induct)
  case less
  show ?case
  proof (cases "length data = 0")
    case True
    then have "sz = 0" using less.prems(2) by (simp add: unat_eq_0)
    moreover have "data = []" using True by simp
    ultimately show ?thesis
      using less.prems(1) by (subst load_data.simps) (simp add: page_count_0)
  next
    case False
    then have pos: "0 < sz"
      using less.prems(2) by (metis unat_0 word_gt_0)
    let ?k = "min (length data) 1024"
    let ?s4 = "s\<lparr>mem := write_bytes dst (take ?k data @ replicate (1024 - ?k) 0xFF) (mem s),
                  uart_in := drop ?k data @ rest,
                  uart_out := uart_out s @ [FRAME_OK],
                  flash_ops := flash_ops s @ [Erase dst, Program dst 256]\<rparr>"
    have step: "load_data dst sz s = load_data (dst + 1024) (sz - of_nat ?k) ?s4"
      by (rule load_data_step [OF pos less.prems])
    have kpos: "0 < ?k" using False by simp
    have kle: "?k \<le> unat sz" using less.prems(2) by simp
    have "?k < 4294967296" by (simp add: min_less_iff_disj)
    then have uk: "unat (of_nat ?k :: u32) = ?k"
      by (simp only: unat_of_nat) simp
    have "of_nat ?k \<le> sz"
      using kle by (simp only: word_le_nat_alt uk)
    then have "unat (sz - of_nat ?k) = unat sz - unat (of_nat ?k :: u32)"
      by (rule unat_sub)
    then have "unat (sz - of_nat ?k) = unat sz - ?k"
      by (simp only: uk)
    then have len': "length (drop ?k data) = unat (sz - of_nat ?k)"
      by (simp add: less.prems(2))
    have smaller: "length (drop ?k data) < length data"
      using kpos False by simp
    have in': "uart_in ?s4 = drop ?k data @ rest" by simp
    have al': "(dst + 1024) mod 1024 = 0"
      by (rule aligned_next [OF less.prems(3)])
    note IH = less.hyps [OF smaller in' len' al']
    let ?L' = "length (drop ?k data)"
    have bytes: "(take ?k data @ replicate (1024 - ?k) 0xFF)
                   @ (drop ?k data @ replicate (page_count ?L' * 1024 - ?L') 0xFF)
                 = data @ replicate (page_count (length data) * 1024 - length data) (0xFF :: u8)"
      and count: "page_count (length data) = Suc (page_count ?L')"
    proof -
      show "(take ?k data @ replicate (1024 - ?k) 0xFF)
                   @ (drop ?k data @ replicate (page_count ?L' * 1024 - ?L') 0xFF)
                 = data @ replicate (page_count (length data) * 1024 - length data) (0xFF :: u8)"
      proof (cases "length data \<le> 1024")
        case True
        then show ?thesis using False
          by (simp add: page_count_0 page_count_1 min_def)
      next
        case big: False
        then have pc: "page_count (length data) = Suc (page_count (length data - 1024))"
          by (simp add: page_count_more)
        have "length data - 1024 \<le> page_count (length data - 1024) * 1024"
          by (rule page_count_covers)
        then have "Suc (page_count (length data - 1024)) * 1024 - length data
                 = page_count (length data - 1024) * 1024 - (length data - 1024)"
          using big by simp
        then show ?thesis using big pc by (simp add: min_def)
      qed
      show "page_count (length data) = Suc (page_count ?L')"
      proof (cases "length data \<le> 1024")
        case True
        then show ?thesis using False
          by (simp add: page_count_0 page_count_1 min_def)
      next
        case big: False
        then show ?thesis by (simp add: page_count_more min_def)
      qed
    qed
    have memeq: "write_bytes (dst + 1024)
                   (drop ?k data @ replicate (page_count ?L' * 1024 - ?L') 0xFF)
                   (write_bytes dst (take ?k data @ replicate (1024 - ?k) 0xFF) (mem s))
                 = write_bytes dst
                     (data @ replicate (page_count (length data) * 1024 - length data) 0xFF)
                     (mem s)"
    proof -
      have "length (take ?k data @ replicate (1024 - ?k) (0xFF :: u8)) = 1024" by simp
      then have "write_bytes dst ((take ?k data @ replicate (1024 - ?k) 0xFF)
                   @ (drop ?k data @ replicate (page_count ?L' * 1024 - ?L') 0xFF)) (mem s)
                 = write_bytes (dst + 1024)
                   (drop ?k data @ replicate (page_count ?L' * 1024 - ?L') 0xFF)
                   (write_bytes dst (take ?k data @ replicate (1024 - ?k) 0xFF) (mem s))"
        by (simp only: write_bytes_append) simp
      then show ?thesis by (simp only: bytes)
    qed
    have m4: "mem ?s4 = write_bytes dst (take ?k data @ replicate (1024 - ?k) 0xFF) (mem s)"
      by simp
    have o4: "uart_out ?s4 @ replicate (page_count ?L') FRAME_OK
              = uart_out s @ replicate (page_count (length data)) FRAME_OK"
      by (simp only: count) simp
    have f4: "flash_ops ?s4 @ page_ops (dst + 1024) (page_count ?L')
              = flash_ops s @ page_ops dst (page_count (length data))"
      by (simp only: count) (simp add: FLASH_PAGE_SIZE_def)
    have collapse: "\<And>X Y Z. ?s4\<lparr>mem := X, uart_in := rest, uart_out := Y, flash_ops := Z\<rparr>
                    = s\<lparr>mem := X, uart_in := rest, uart_out := Y, flash_ops := Z\<rparr>"
      by simp
    show ?thesis
      by (simp only: step IH m4 o4 f4 memeq collapse)
  qed
qed

lemma page_count_fits:
  assumes "L < 2 ^ 32"
  shows "page_count L * 1024 \<le> 2 ^ 32"
proof -
  have "L + 1023 \<le> 4294968318" using assms by simp
  then have "(L + 1023) div 1024 \<le> 4294968318 div 1024"
    by (rule div_le_mono)
  then show ?thesis by (simp add: page_count_def FLASH_PAGE_SIZE_def)
qed

lemma unat_offset:
  fixes dst :: u32
  assumes "i < 2 ^ 32"
  shows "unat (dst + of_nat i - dst) = i"
proof -
  have "unat (of_nat i :: u32) = i"
    using assms by (simp only: unat_of_nat) simp
  then show ?thesis by simp
qed


text \<open>
  Claim C6. Let the host send a payload \<open>data\<close> of \<open>L > 0\<close> bytes, \<open>L\<close> being the
  size passed to \<open>load_data\<close>, and let the destination be page-aligned, as both callers
  have it. Then \<open>load_data\<close> returns, and afterwards: byte \<open>i\<close> of the destination is
  byte \<open>i\<close> of the payload for every \<open>i < L\<close>; the bytes from \<open>L\<close> up to the end of the
  last page are \<open>0xFF\<close>; memory beyond the pages written is as before; the flash driver
  was called with an erase and then a program of 256 words for each page in turn and
  nothing else; exactly \<open>ceil(L / 1024)\<close> bytes \<open>0x00\<close> were sent; and the host's bytes
  after the payload are still unread.
\<close>

theorem load_data_round_trip:
  assumes inp: "uart_in s = data @ rest"
      and len: "length data = unat sz"
      and pos: "0 < length data"
      and al: "dst mod FLASH_PAGE_SIZE = 0"
  shows "\<exists>s'. load_data dst sz s = Inr s'
     \<and> (\<forall>i<length data. mem s' (dst + of_nat i) = data ! i)
     \<and> (\<forall>i. length data \<le> i \<and> i < page_count (length data) * unat FLASH_PAGE_SIZE
            \<longrightarrow> mem s' (dst + of_nat i) = 0xFF)
     \<and> (\<forall>x. page_count (length data) * unat FLASH_PAGE_SIZE \<le> unat (x - dst)
            \<longrightarrow> mem s' x = mem s x)
     \<and> flash_ops s' = flash_ops s @ page_ops dst (page_count (length data))
     \<and> uart_out s' = uart_out s @ replicate (page_count (length data)) 0x00
     \<and> uart_in s' = rest
     \<and> page_count (length data) = (length data + 1023) div 1024"
proof -
  let ?n = "page_count (length data)"
  let ?bytes = "data @ replicate (?n * 1024 - length data) (0xFF :: u8)"
  let ?s' = "s\<lparr>mem := write_bytes dst ?bytes (mem s),
               uart_in := rest,
               uart_out := uart_out s @ replicate ?n FRAME_OK,
               flash_ops := flash_ops s @ page_ops dst ?n\<rparr>"
  have al': "dst mod 1024 = 0" using al by (simp add: FLASH_PAGE_SIZE_def)
  have run: "load_data dst sz s = Inr ?s'"
    by (rule load_data_pages [OF inp len al'])
  have L: "length data < 2 ^ 32"
    using len unsigned_less [of sz, where 'a = nat] by simp
  have cov: "length data \<le> ?n * 1024" by (rule page_count_covers)
  have tot: "length ?bytes = ?n * 1024" using cov by simp
  have fits: "length ?bytes \<le> 2 ^ 32"
    using page_count_fits [OF L] tot by simp
  have inside: "\<And>i. i < ?n * 1024 \<Longrightarrow> mem ?s' (dst + of_nat i) = ?bytes ! i"
  proof -
    fix i assume i: "i < ?n * 1024"
    then have "i < 2 ^ 32" using page_count_fits [OF L] by simp
    then have u: "unat (dst + of_nat i - dst) = i" by (rule unat_offset)
    have "write_bytes dst ?bytes (mem s) (dst + of_nat i) = ?bytes ! unat (dst + of_nat i - dst)"
      by (rule write_bytes_inside) (use i u tot fits in simp_all)
    then show "mem ?s' (dst + of_nat i) = ?bytes ! i" using u by simp
  qed
  have a: "\<forall>i<length data. mem ?s' (dst + of_nat i) = data ! i"
  proof (intro allI impI)
    fix i assume i: "i < length data"
    then have "i < ?n * 1024" using cov by simp
    then have "mem ?s' (dst + of_nat i) = ?bytes ! i" by (rule inside)
    then show "mem ?s' (dst + of_nat i) = data ! i" using i by (simp add: nth_append)
  qed
  have b: "\<forall>i. length data \<le> i \<and> i < ?n * unat FLASH_PAGE_SIZE
            \<longrightarrow> mem ?s' (dst + of_nat i) = 0xFF"
  proof (intro allI impI)
    fix i assume i: "length data \<le> i \<and> i < ?n * unat FLASH_PAGE_SIZE"
    then have i': "i < ?n * 1024" by (simp add: FLASH_PAGE_SIZE_def)
    have ge: "\<not> i < length data" using i by simp
    have "i - length data < ?n * 1024 - length data" using i i' by arith
    then have "replicate (?n * 1024 - length data) (0xFF :: u8) ! (i - length data) = 0xFF"
      by (rule nth_replicate)
    then have "?bytes ! i = 0xFF" using ge by (simp only: nth_append if_False)
    moreover have "mem ?s' (dst + of_nat i) = ?bytes ! i" using i' by (rule inside)
    ultimately show "mem ?s' (dst + of_nat i) = 0xFF" by simp
  qed
  have c: "\<forall>x. ?n * unat FLASH_PAGE_SIZE \<le> unat (x - dst) \<longrightarrow> mem ?s' x = mem s x"
  proof (intro allI impI)
    fix x assume "?n * unat FLASH_PAGE_SIZE \<le> unat (x - dst)"
    then have "length ?bytes \<le> unat (x - dst)"
      using tot by (simp add: FLASH_PAGE_SIZE_def)
    then have "write_bytes dst ?bytes (mem s) x = mem s x" by (rule write_bytes_outside)
    then show "mem ?s' x = mem s x" by simp
  qed
  have d: "flash_ops ?s' = flash_ops s @ page_ops dst ?n"
    and e: "uart_out ?s' = uart_out s @ replicate ?n 0x00"
    and f: "uart_in ?s' = rest"
    by (simp_all add: FRAME_OK_def)
  have g: "?n = (length data + 1023) div 1024"
    by (simp add: page_count_def FLASH_PAGE_SIZE_def)
  show ?thesis
    using run a b c d e f g by blast
qed

theorem load_data_round_trip_witness:
  "\<exists>s'. load_data FIRMWARE_STORAGE_PTR 3 (idle erased [1, 2, 3, 9]) = Inr s'
     \<and> mem s' (FIRMWARE_STORAGE_PTR + 1) = 2
     \<and> mem s' (FIRMWARE_STORAGE_PTR + 1023) = 0xFF
     \<and> mem s' (FIRMWARE_STORAGE_PTR + 1024) = erased (FIRMWARE_STORAGE_PTR + 1024)
     \<and> flash_ops s' = [Erase FIRMWARE_STORAGE_PTR, Program FIRMWARE_STORAGE_PTR 256]
     \<and> uart_out s' = [0]
     \<and> uart_in s' = [9]"
proof -
  have h1: "uart_in (idle erased [1, 2, 3, 9]) = [1, 2, 3] @ [9]"
    by (simp add: idle_def)
  have h2: "length [1, 2, 3 :: u8] = unat (3 :: u32)" by simp
  have h3: "0 < length [1, 2, 3 :: u8]" by simp
  have h4: "FIRMWARE_STORAGE_PTR mod FLASH_PAGE_SIZE = 0"
    by (simp add: FIRMWARE_STORAGE_PTR_def FIRMWARE_METADATA_PTR_def FLASH_START_def
        FLASH_PAGE_SIZE_def)
  have n: "page_count (length [1, 2, 3 :: u8]) = 1"
    by (simp add: page_count_def FLASH_PAGE_SIZE_def)
  have n': "page_count (Suc (Suc (Suc 0))) = 1"
    by (simp add: page_count_def FLASH_PAGE_SIZE_def)
  from load_data_round_trip [OF h1 h2 h3 h4] obtain s' where
        r: "load_data FIRMWARE_STORAGE_PTR 3 (idle erased [1, 2, 3, 9]) = Inr s'"
    and a: "\<forall>i<length [1, 2, 3 :: u8]. mem s' (FIRMWARE_STORAGE_PTR + of_nat i) = [1, 2, 3] ! i"
    and b: "\<forall>i. length [1, 2, 3 :: u8] \<le> i
               \<and> i < page_count (length [1, 2, 3 :: u8]) * unat FLASH_PAGE_SIZE
            \<longrightarrow> mem s' (FIRMWARE_STORAGE_PTR + of_nat i) = 0xFF"
    and c: "\<forall>x. page_count (length [1, 2, 3 :: u8]) * unat FLASH_PAGE_SIZE
                 \<le> unat (x - FIRMWARE_STORAGE_PTR)
            \<longrightarrow> mem s' x = mem (idle erased [1, 2, 3, 9]) x"
    and d: "flash_ops s' = flash_ops (idle erased [1, 2, 3, 9])
               @ page_ops FIRMWARE_STORAGE_PTR (page_count (length [1, 2, 3 :: u8]))"
    and e: "uart_out s' = uart_out (idle erased [1, 2, 3, 9])
               @ replicate (page_count (length [1, 2, 3 :: u8])) 0x00"
    and f: "uart_in s' = [9]"
    by blast
  have a1: "mem s' (FIRMWARE_STORAGE_PTR + 1) = 2"
    using a [rule_format, of 1] by simp
  have b1: "mem s' (FIRMWARE_STORAGE_PTR + 1023) = 0xFF"
    using b [rule_format, of 1023] by (simp add: n n' FLASH_PAGE_SIZE_def)
  have c1: "mem s' (FIRMWARE_STORAGE_PTR + 1024) = erased (FIRMWARE_STORAGE_PTR + 1024)"
    using c [rule_format, of "FIRMWARE_STORAGE_PTR + 1024"]
    by (simp add: n n' FLASH_PAGE_SIZE_def idle_def)
  have d1: "flash_ops s' = [Erase FIRMWARE_STORAGE_PTR, Program FIRMWARE_STORAGE_PTR 256]"
    using d by (simp add: n n' idle_def FLASH_PAGE_SIZE_def)
  have e1: "uart_out s' = [0]"
    using e by (simp add: n n' idle_def)
  show ?thesis using r a1 b1 c1 d1 e1 f by blast
qed

section \<open>The release message\<close>














end
